theory Spec2Isabelle
  imports Complex_Main
begin

section \<open>The consumption calculator of dbus-consumption-calculator.py\<close>

text \<open>
  The program reads four power values from two D-Bus services (grid meter and PV inverter),
  computes the household consumption and writes it to four paths of its own D-Bus service.
  Python numbers are modelled as exact reals. What the D-Bus library does is an input of the
  model: what each \<open>get_value()\<close> call returns or raises, whether the publishing block
  raises, and whether \<open>get_object\<close> finds a service.
\<close>

subsection \<open>Values, faults and the service state\<close>

text \<open>
  A value that \<open>get_value()\<close> hands back when it is not \<open>None\<close>: a number, or an
  object of another type (a string, a list, a dictionary), on which \<open>< 0\<close>, \<open>abs\<close>,
  \<open>+\<close> and \<open>-\<close> against a number raise \<open>TypeError\<close>.
\<close>

datatype pyval = Num real | NonNum

text \<open>
  The exceptions of a tick, all of them subclasses of \<open>Exception\<close>: one raised by
  \<open>get_value()\<close>, the \<open>TypeError\<close> of the arithmetic, one raised inside the
  \<open>with\<close> block that publishes.
\<close>

datatype fault = ReadError | TypeError | WriteError

text \<open>A published value: the paths hold numbers and strings.\<close>

datatype dval = DNum real | DStr string

datatype log_entry =
  LogError fault
| LogDebug pyval pyval real

text \<open>
  \<open>self._dbusservice\<close>: the values of its paths, and the lines written by
  \<open>logging.error\<close> and \<open>logging.debug\<close> in \<open>_update\<close>.
\<close>

record service =
  items :: "string \<rightharpoonup> dval"
  logged :: "log_entry list"

text \<open>
  What the bus does during one tick: the outcome of the four \<open>get_value()\<close> calls
  (\<open>Inl\<close>: the call raises; \<open>Inr None\<close>: no value available), and
  \<open>setitem_fault\<close>: \<open>Some k\<close> when an exception is raised inside the \<open>with\<close> block
  after \<open>k\<close> of its item assignments have been issued, \<open>None\<close> when the block completes.
\<close>

record bus =
  grid_power_item :: "fault + pyval option"
  grid_l1_power_item :: "fault + pyval option"
  pv_power_item :: "fault + pyval option"
  pv_l1_power_item :: "fault + pyval option"
  setitem_fault :: "nat option"

subsection \<open>Registration: \<open>ConsumptionCalculator.__init__\<close>\<close>

definition add_path :: "string \<Rightarrow> dval \<Rightarrow> (string \<rightharpoonup> dval) \<Rightarrow> (string \<rightharpoonup> dval)" where
  "add_path path v its = its(path \<mapsto> v)"

text \<open>
  The paths in the order of the source. \<open>file\<close> is \<open>__file__\<close> and \<open>python_version\<close>
  is \<open>platform.python_version()\<close>. The update timer is only registered here; no tick runs
  during construction.
\<close>

definition init :: "string \<Rightarrow> string \<Rightarrow> service" where
  "init file python_version =
     \<lparr>items =
        (add_path ''/Ac/L3/Power'' (DNum 0)
        (add_path ''/Ac/L2/Power'' (DNum 0)
        (add_path ''/Ac/L1/Power'' (DNum 0)
        (add_path ''/Ac/Power'' (DNum 0)
        (add_path ''/Serial'' (DStr ''CALC001'')
        (add_path ''/Role'' (DStr ''acload'')
        (add_path ''/Connected'' (DNum 1)
        (add_path ''/HardwareVersion'' (DNum 0)
        (add_path ''/FirmwareVersion'' (DNum 1)
        (add_path ''/CustomName'' (DStr ''AC Loads'')
        (add_path ''/ProductName'' (DStr ''Consumption Calculator'')
        (add_path ''/ProductId'' (DNum 0)
        (add_path ''/DeviceInstance'' (DNum 100)
        (add_path ''/Mgmt/Connection'' (DStr ''Calculated from Grid + PV'')
        (add_path ''/Mgmt/ProcessVersion'' (DStr (''v1.0 on Python '' @ python_version))
        (add_path ''/Mgmt/ProcessName'' (DStr file)
         Map.empty)))))))))))))))),
      logged = []\<rparr>"

subsection \<open>One tick: \<open>ConsumptionCalculator._update\<close>\<close>

text \<open>Default to 0 if values not available.\<close>

definition default0 :: "pyval option \<Rightarrow> pyval" where
  "default0 v = (case v of None \<Rightarrow> Num 0 | Some x \<Rightarrow> x)"

text \<open>
  The branch on the sign of the grid power and the clamp \<open>max(0, _)\<close>. Every operand
  is used by the branch taken and \<open>grid_power < 0\<close> is evaluated first, so a reading that
  is not a number raises \<open>TypeError\<close> before anything is published.
\<close>

fun consumption :: "pyval \<Rightarrow> pyval \<Rightarrow> pyval \<Rightarrow> pyval \<Rightarrow> fault + real \<times> real" where
  "consumption (Num grid_power) (Num grid_l1_power) (Num pv_power) (Num pv_l1_power) =
     (let (consumption_total, consumption_l1) =
        (if grid_power < 0
         then (\<bar>grid_power\<bar> + pv_power, \<bar>grid_l1_power\<bar> + pv_l1_power)
         else (pv_power - grid_power, pv_l1_power - grid_l1_power))
      in Inr (max 0 consumption_total, max 0 consumption_l1))"
| "consumption _ _ _ _ = Inl TypeError"

text \<open>The item assignments of the \<open>with\<close> block, in order.\<close>

definition assignments :: "real \<Rightarrow> real \<Rightarrow> (string \<times> dval) list" where
  "assignments consumption_total consumption_l1 =
     [(''/Ac/Power'', DNum consumption_total),
      (''/Ac/L1/Power'', DNum consumption_l1),
      (''/Ac/L2/Power'', DNum 0),
      (''/Ac/L3/Power'', DNum 0)]"

fun setitems :: "(string \<times> dval) list \<Rightarrow> (string \<rightharpoonup> dval) \<Rightarrow> (string \<rightharpoonup> dval)" where
  "setitems [] its = its"
| "setitems ((path, v) # rest) its = setitems rest (its(path \<mapsto> v))"

text \<open>
  Modelled from the spec: the context manager of \<open>VeDbusService\<close> (the \<open>with\<close> block
  of \<open>_update\<close>), which is library code outside the program. The specification gives the
  store as one with atomic multi-field updates: the four output fields are written as one
  indivisible transaction, and readers never observe a partially updated set. So the block
  either completes, and all its assignments are published, or it raises, and none is: the
  items stay as they were, however many assignments had been issued.
\<close>

definition publish ::
  "nat option \<Rightarrow> (string \<times> dval) list \<Rightarrow> (string \<rightharpoonup> dval) \<Rightarrow> (string \<rightharpoonup> dval) \<times> (fault + unit)" where
  "publish fault_at ws its =
     (case fault_at of
        None \<Rightarrow> (setitems ws its, Inr ())
      | Some k \<Rightarrow> (its, Inl WriteError))"

text \<open>
  The first part of the body of the \<open>try\<close>: the four reads in the order of the source,
  the defaulting and the computation. Nothing is written here. On success it yields the
  defaulted \<open>grid_power\<close> and \<open>pv_power\<close> (for the debug line) and the two results.
\<close>

definition read_and_compute :: "bus \<Rightarrow> fault + pyval \<times> pyval \<times> real \<times> real" where
  "read_and_compute b =
     (case grid_power_item b of Inl e \<Rightarrow> Inl e | Inr grid_power \<Rightarrow>
      case grid_l1_power_item b of Inl e \<Rightarrow> Inl e | Inr grid_l1_power \<Rightarrow>
      case pv_power_item b of Inl e \<Rightarrow> Inl e | Inr pv_power \<Rightarrow>
      case pv_l1_power_item b of Inl e \<Rightarrow> Inl e | Inr pv_l1_power \<Rightarrow>
      case consumption (default0 grid_power) (default0 grid_l1_power)
             (default0 pv_power) (default0 pv_l1_power) of
        Inl e \<Rightarrow> Inl e
      | Inr (consumption_total, consumption_l1) \<Rightarrow>
          Inr (default0 grid_power, default0 pv_power, consumption_total, consumption_l1))"

text \<open>
  The whole body of the \<open>try\<close>: the part above, the publishing and the debug line. It
  returns the items as the body leaves them, and the exception that ended it or the debug
  line it logged.
\<close>

definition try_body :: "bus \<Rightarrow> (string \<rightharpoonup> dval) \<Rightarrow> (string \<rightharpoonup> dval) \<times> (fault + log_entry)" where
  "try_body b its =
     (case read_and_compute b of
        Inl e \<Rightarrow> (its, Inl e)
      | Inr (grid_power, pv_power, consumption_total, consumption_l1) \<Rightarrow>
          (case publish (setitem_fault b) (assignments consumption_total consumption_l1) its of
             (its', Inl e) \<Rightarrow> (its', Inl e)
           | (its', Inr _) \<Rightarrow> (its', Inr (LogDebug grid_power pv_power consumption_total))))"

text \<open>
  \<open>_update\<close>: \<open>except Exception\<close> logs the exception, and \<open>return True\<close> follows
  the \<open>try\<close> statement on both paths.
\<close>

definition update :: "bus \<Rightarrow> service \<Rightarrow> service \<times> bool" where
  "update b s =
     (case try_body b (items s) of
        (its, Inr line) \<Rightarrow> (\<lparr>items = its, logged = logged s @ [line]\<rparr>, True)
      | (its, Inl e) \<Rightarrow> (\<lparr>items = its, logged = logged s @ [LogError e]\<rparr>, True))"

text \<open>
  The timer of \<open>GLib.timeout_add\<close>: it calls \<open>_update\<close> once per period, with the bus
  as it is then, and keeps the timer for as long as the call returns \<open>True\<close>.
\<close>

fun scheduler :: "bus list \<Rightarrow> service \<Rightarrow> service" where
  "scheduler [] s = s"
| "scheduler (b # bs) s =
     (case update b s of (s', again) \<Rightarrow> if again then scheduler bs s' else s')"

text \<open>A tick on which nothing raises, with the four readings numbers or unavailable.\<close>

definition readings :: "real option \<Rightarrow> real option \<Rightarrow> real option \<Rightarrow> real option \<Rightarrow> bus" where
  "readings grid_total grid_l1 pv_total pv_l1 =
     \<lparr>grid_power_item = Inr (map_option Num grid_total),
      grid_l1_power_item = Inr (map_option Num grid_l1),
      pv_power_item = Inr (map_option Num pv_total),
      pv_l1_power_item = Inr (map_option Num pv_l1),
      setitem_fault = None\<rparr>"

text \<open>A reading after the defaulting, as a number.\<close>

definition or0 :: "real option \<Rightarrow> real" where
  "or0 v = (case v of None \<Rightarrow> 0 | Some x \<Rightarrow> x)"

subsection \<open>Startup: \<open>main\<close>\<close>

datatype event = GetObject string | Sleep nat

definition grid_service :: string where
  "grid_service = ''com.victronenergy.grid.huawei_meter''"

definition pv_service :: string where
  "pv_service = ''com.victronenergy.pvinverter.sun2000''"

definition max_retries :: nat where
  "max_retries = 30"

text \<open>
  The \<open>while\<close> loop that waits for one service. \<open>get_object service_name n\<close> tells
  whether the call of \<open>dbusconn.get_object\<close> made with \<open>retry_count = n\<close> finds the
  service (\<open>False\<close>: it raises \<open>DBusException\<close>). The result is the calls and sleeps
  made, in order, and the exit status when \<open>sys.exit\<close> is called (\<open>None\<close>: the loop is
  left and \<open>main\<close> goes on).
\<close>

function wait_loop ::
  "(string \<Rightarrow> nat \<Rightarrow> bool) \<Rightarrow> nat \<Rightarrow> string \<Rightarrow> nat \<Rightarrow> event list \<times> nat option" where
  "wait_loop get_object retries service_name retry_count =
     (if retry_count < retries then
        if get_object service_name retry_count then ([GetObject service_name], None)
        else if retries \<le> Suc retry_count then ([GetObject service_name], Some 1)
        else (case wait_loop get_object retries service_name (Suc retry_count) of
                (evs, r) \<Rightarrow> (GetObject service_name # Sleep 2 # evs, r))
      else ([], None))"
  by pat_completeness auto
termination
  by (relation "measure (\<lambda>(get_object, retries, service_name, retry_count). retries - retry_count)") auto

text \<open>The \<open>for\<close> loop over the services: \<open>sys.exit\<close> ends it.\<close>

fun wait_for_services ::
  "(string \<Rightarrow> nat \<Rightarrow> bool) \<Rightarrow> nat \<Rightarrow> string list \<Rightarrow> event list \<times> nat option" where
  "wait_for_services get_object retries [] = ([], None)"
| "wait_for_services get_object retries (service_name # rest) =
     (case wait_loop get_object retries service_name 0 of
        (evs, Some status) \<Rightarrow> (evs, Some status)
      | (evs, None) \<Rightarrow>
          (case wait_for_services get_object retries rest of (evs', r) \<Rightarrow> (evs @ evs', r)))"

text \<open>
  \<open>main\<close>, up to the start of the main loop: the calls and sleeps of the waiting, and
  either the exit status or the calculator as constructed (its constructor is modelled as
  not raising).
\<close>

definition main :: "(string \<Rightarrow> nat \<Rightarrow> bool) \<Rightarrow> string \<Rightarrow> string \<Rightarrow> event list \<times> (nat + service)" where
  "main get_object file python_version =
     (case wait_for_services get_object max_retries [grid_service, pv_service] of
        (evs, Some status) \<Rightarrow> (evs, Inl status)
      | (evs, None) \<Rightarrow> (evs, Inr (init file python_version)))"

text \<open>The calls and sleeps of a service found at its \<open>k\<close>-th retry, and of one never found.\<close>

definition attempts :: "string \<Rightarrow> nat \<Rightarrow> event list" where
  "attempts service_name k = concat (replicate k [GetObject service_name, Sleep 2]) @ [GetObject service_name]"

subsection \<open>The published outputs\<close>

text \<open>The four paths that \<open>_update\<close> assigns.\<close>

definition output_paths :: "string list" where
  "output_paths = [''/Ac/Power'', ''/Ac/L1/Power'', ''/Ac/L2/Power'', ''/Ac/L3/Power'']"

text \<open>A path holds a number that is not negative.\<close>

definition nonneg_at :: "(string \<rightharpoonup> dval) \<Rightarrow> string \<Rightarrow> bool" where
  "nonneg_at its path = (case its path of Some (DNum v) \<Rightarrow> 0 \<le> v | _ \<Rightarrow> False)"

definition outputs_nonneg :: "(string \<rightharpoonup> dval) \<Rightarrow> bool" where
  "outputs_nonneg its =
     (nonneg_at its ''/Ac/Power'' \<and> nonneg_at its ''/Ac/L1/Power''
      \<and> nonneg_at its ''/Ac/L2/Power'' \<and> nonneg_at its ''/Ac/L3/Power'')"

section \<open>Properties\<close>

subsection \<open>Helper lemmas\<close>

lemma default0_Num: "default0 (map_option Num v) = Num (or0 v)"
  by (cases v) (simp_all add: default0_def or0_def)

lemma read_and_compute_readings:
  "read_and_compute (readings g gl p pl) =
     Inr (Num (or0 g), Num (or0 p),
       max 0 (if or0 g < 0 then \<bar>or0 g\<bar> + or0 p else or0 p - or0 g),
       max 0 (if or0 g < 0 then \<bar>or0 gl\<bar> + or0 pl else or0 pl - or0 gl))"
  by (simp add: read_and_compute_def readings_def default0_Num)

lemma items_update_readings:
  "items (fst (update (readings g gl p pl) s)) =
     setitems (assignments
       (max 0 (if or0 g < 0 then \<bar>or0 g\<bar> + or0 p else or0 p - or0 g))
       (max 0 (if or0 g < 0 then \<bar>or0 gl\<bar> + or0 pl else or0 pl - or0 gl))) (items s)"
proof -
  have "setitem_fault (readings g gl p pl) = None"
    by (simp add: readings_def)
  then show ?thesis
    by (simp add: update_def try_body_def read_and_compute_readings publish_def)
qed

subsection \<open>The formula\<close>

text \<open>
  C2: when the grid reading, after defaulting, is not negative, the published
  \<open>/Ac/Power\<close> is \<open>max(0, pv_total - grid_total)\<close>; 1715 and 2417 give 702, and
  500 and 100 give 0 after the clamp.
\<close>

theorem export_branch_total:
  "(0 \<le> or0 g \<longrightarrow>
      items (fst (update (readings g gl p pl) s)) ''/Ac/Power'' = Some (DNum (max 0 (or0 p - or0 g))))
   \<and> items (fst (update (readings (Some 1715) gl (Some 2417) pl) s)) ''/Ac/Power'' = Some (DNum 702)
   \<and> items (fst (update (readings (Some 500) gl (Some 100) pl) s)) ''/Ac/Power'' = Some (DNum 0)"
  by (simp add: items_update_readings assignments_def or0_def)

theorem export_branch_total_witness:
  "0 \<le> or0 (Some 20) \<and>
   items (fst (update (readings (Some 20) (Some 20) (Some 50) (Some 50)) (init ''calc.py'' ''3.8'')))
     ''/Ac/Power'' = Some (DNum 30)"
  using export_branch_total [of "Some 20" "Some 20" "Some 50" "Some 50" "init ''calc.py'' ''3.8''"]
  by (simp add: or0_def)

text \<open>
  C1, as amended: when the grid reading, after defaulting, is negative, the published
  \<open>/Ac/Power\<close> is \<open>max(0, |grid_total| + pv_total)\<close>. It is
  \<open>|grid_total| + pv_total\<close>, and that is not negative without the clamp, when
  \<open>pv_total \<ge> -|grid_total|\<close> (so for every \<open>pv_total \<ge> 0\<close>); for a smaller
  \<open>pv_total\<close> the clamp applies and 0 is published.
\<close>

theorem import_branch_total:
  "or0 g < 0 \<Longrightarrow>
     items (fst (update (readings g gl p pl) s)) ''/Ac/Power'' = Some (DNum (max 0 (\<bar>or0 g\<bar> + or0 p)))
     \<and> (- \<bar>or0 g\<bar> \<le> or0 p \<longrightarrow>
          items (fst (update (readings g gl p pl) s)) ''/Ac/Power'' = Some (DNum (\<bar>or0 g\<bar> + or0 p))
          \<and> 0 \<le> \<bar>or0 g\<bar> + or0 p)
     \<and> (or0 p < - \<bar>or0 g\<bar> \<longrightarrow>
          items (fst (update (readings g gl p pl) s)) ''/Ac/Power'' = Some (DNum 0))"
  by (simp add: items_update_readings assignments_def max_def)

text \<open>Scenario 1 of the specification: \<open>-2300\<close> and \<open>400\<close> give \<open>2700\<close>.\<close>

theorem import_branch_total_witness:
  "or0 (Some (- 2300)) < 0 \<and> - \<bar>or0 (Some (- 2300))\<bar> \<le> or0 (Some 400) \<and>
   items (fst (update (readings (Some (- 2300)) None (Some 400) None) (init ''calc.py'' ''3.8'')))
     ''/Ac/Power'' = Some (DNum 2700)"
  using import_branch_total [of "Some (- 2300)" None "Some 400" None "init ''calc.py'' ''3.8''"]
  by (simp add: or0_def)

text \<open>
  C1 as stated fails for a negative PV reading: with \<open>grid_total = -100\<close> and
  \<open>pv_total = -500\<close> the sum \<open>|grid_total| + pv_total\<close> is \<open>-400\<close>, which is negative,
  and the clamp publishes 0.
\<close>

theorem import_branch_total_counterexample:
  "or0 (Some (- 100)) < 0
   \<and> items (fst (update (readings (Some (- 100)) None (Some (- 500)) None) (init ''calc.py'' ''3.8'')))
       ''/Ac/Power'' = Some (DNum 0)
   \<and> items (fst (update (readings (Some (- 100)) None (Some (- 500)) None) (init ''calc.py'' ''3.8'')))
       ''/Ac/Power'' \<noteq> Some (DNum (\<bar>or0 (Some (- 100))\<bar> + or0 (Some (- 500))))
   \<and> \<not> 0 \<le> \<bar>or0 (Some (- 100))\<bar> + or0 (Some (- 500))"
  by (simp add: items_update_readings assignments_def or0_def)

subsection \<open>Unavailable readings\<close>

text \<open>
  C5: in each of the four readings, whatever the other three are, a tick with the reading
  unavailable (\<open>None\<close>) leaves the same state and result as a tick with the reading 0; an
  unavailable grid_total with pv_total = 500 publishes 500.
\<close>

theorem unavailable_as_zero:
  "update (b\<lparr>grid_power_item := Inr None\<rparr>) s = update (b\<lparr>grid_power_item := Inr (Some (Num 0))\<rparr>) s
   \<and> update (b\<lparr>grid_l1_power_item := Inr None\<rparr>) s = update (b\<lparr>grid_l1_power_item := Inr (Some (Num 0))\<rparr>) s
   \<and> update (b\<lparr>pv_power_item := Inr None\<rparr>) s = update (b\<lparr>pv_power_item := Inr (Some (Num 0))\<rparr>) s
   \<and> update (b\<lparr>pv_l1_power_item := Inr None\<rparr>) s = update (b\<lparr>pv_l1_power_item := Inr (Some (Num 0))\<rparr>) s
   \<and> readings None gl p pl = readings (Some 0) gl p pl\<lparr>grid_power_item := Inr None\<rparr>
   \<and> items (fst (update (readings None gl (Some 500) pl) s)) ''/Ac/Power'' = Some (DNum 500)"
proof -
  have rc: "read_and_compute (b\<lparr>grid_power_item := Inr None\<rparr>) =
              read_and_compute (b\<lparr>grid_power_item := Inr (Some (Num 0))\<rparr>)"
    "read_and_compute (b\<lparr>grid_l1_power_item := Inr None\<rparr>) =
       read_and_compute (b\<lparr>grid_l1_power_item := Inr (Some (Num 0))\<rparr>)"
    "read_and_compute (b\<lparr>pv_power_item := Inr None\<rparr>) =
       read_and_compute (b\<lparr>pv_power_item := Inr (Some (Num 0))\<rparr>)"
    "read_and_compute (b\<lparr>pv_l1_power_item := Inr None\<rparr>) =
       read_and_compute (b\<lparr>pv_l1_power_item := Inr (Some (Num 0))\<rparr>)"
    by (simp_all add: read_and_compute_def default0_def split: sum.splits)
  have upd: "update (b\<lparr>grid_power_item := Inr None\<rparr>) s =
               update (b\<lparr>grid_power_item := Inr (Some (Num 0))\<rparr>) s"
    "update (b\<lparr>grid_l1_power_item := Inr None\<rparr>) s =
       update (b\<lparr>grid_l1_power_item := Inr (Some (Num 0))\<rparr>) s"
    "update (b\<lparr>pv_power_item := Inr None\<rparr>) s =
       update (b\<lparr>pv_power_item := Inr (Some (Num 0))\<rparr>) s"
    "update (b\<lparr>pv_l1_power_item := Inr None\<rparr>) s =
       update (b\<lparr>pv_l1_power_item := Inr (Some (Num 0))\<rparr>) s"
    by (simp_all add: update_def try_body_def rc split: sum.splits)
  have rd: "readings None gl p pl = readings (Some 0) gl p pl\<lparr>grid_power_item := Inr None\<rparr>"
    by (simp add: readings_def)
  have ex: "items (fst (update (readings None gl (Some 500) pl) s)) ''/Ac/Power'' = Some (DNum 500)"
    by (simp add: items_update_readings assignments_def or0_def)
  from upd rd ex show ?thesis
    by blast
qed

subsection \<open>Registration\<close>

text \<open>
  C10: after construction, before any tick has run, the four power outputs
  \<open>/Ac/Power\<close>, \<open>/Ac/L1/Power\<close>, \<open>/Ac/L2/Power\<close> and \<open>/Ac/L3/Power\<close> hold 0.
\<close>

theorem init_outputs_zero:
  "items (init file python_version) ''/Ac/Power'' = Some (DNum 0)
   \<and> items (init file python_version) ''/Ac/L1/Power'' = Some (DNum 0)
   \<and> items (init file python_version) ''/Ac/L2/Power'' = Some (DNum 0)
   \<and> items (init file python_version) ''/Ac/L3/Power'' = Some (DNum 0)
   \<and> items (scheduler [] (init file python_version)) = items (init file python_version)"
  by (simp add: init_def add_path_def)

subsection \<open>What a tick writes\<close>

lemma update_True: "snd (update b s) = True"
  by (simp add: update_def split: prod.splits sum.splits)

lemma scheduler_Cons: "scheduler (b # bs) s = scheduler bs (fst (update b s))"
  using update_True [of b s] by (cases "update b s") simp



lemma consumption_nonneg: "consumption a b c d = Inr (ct, cl1) \<Longrightarrow> 0 \<le> ct \<and> 0 \<le> cl1"
  by (cases "(a, b, c, d)" rule: consumption.cases) (auto split: if_splits)

lemma read_and_compute_nonneg:
  "read_and_compute b = Inr (gp, pp, ct, cl1) \<Longrightarrow> 0 \<le> ct \<and> 0 \<le> cl1"
  by (auto simp: read_and_compute_def split: sum.splits dest: consumption_nonneg)

lemma update_read_fault:
  "read_and_compute b = Inl e \<Longrightarrow>
     try_body b its = (its, Inl e) \<and> items (fst (update b s)) = items s"
  by (simp add: update_def try_body_def)

lemma update_write_fault:
  "read_and_compute b = Inr (gp, pp, ct, cl1) \<Longrightarrow> setitem_fault b = Some k \<Longrightarrow>
     try_body b its = (its, Inl WriteError)"
  by (simp add: try_body_def publish_def)

lemma update_no_fault:
  "read_and_compute b = Inr (gp, pp, ct, cl1) \<Longrightarrow> setitem_fault b = None \<Longrightarrow>
     try_body b its = (setitems (assignments ct cl1) its, Inr (LogDebug gp pp ct))"
  by (simp add: try_body_def publish_def)

lemma items_update: "items (fst (update b s)) = fst (try_body b (items s))"
  by (simp add: update_def split: prod.splits sum.splits)

lemma items_update_shape:
  "\<exists>k ct cl1. 0 \<le> ct \<and> 0 \<le> cl1 \<and>
     items (fst (update b s)) = setitems (take k (assignments ct cl1)) (items s)"
proof (cases "read_and_compute b")
  case (Inl e)
  then have "items (fst (update b s)) = setitems (take 0 (assignments 0 0)) (items s)"
    by (simp add: update_read_fault)
  then show ?thesis
    by (metis order_refl)
next
  case (Inr r)
  obtain gp pp ct cl1 where r: "read_and_compute b = Inr (gp, pp, ct, cl1)"
    using Inr by (cases r) auto
  then have nn: "0 \<le> ct" "0 \<le> cl1"
    using read_and_compute_nonneg by blast+
  show ?thesis
  proof (cases "setitem_fault b")
    case None
    have "take 4 (assignments ct cl1) = assignments ct cl1"
      by (simp add: assignments_def)
    with r None have "items (fst (update b s)) = setitems (take 4 (assignments ct cl1)) (items s)"
      by (simp add: items_update update_no_fault)
    with nn show ?thesis
      by blast
  next
    case (Some k)
    with r have "items (fst (update b s)) = setitems (take 0 (assignments ct cl1)) (items s)"
      by (simp add: items_update update_write_fault)
    with nn show ?thesis
      by blast
  qed
qed

lemma setitems_cases:
  "setitems ws its q = its q \<or> (\<exists>w. (q, w) \<in> set ws \<and> setitems ws its q = Some w)"
proof (induction ws arbitrary: its)
  case Nil
  show ?case by simp
next
  case (Cons x ws)
  obtain p v where x: "x = (p, v)"
    by (cases x)
  have step: "setitems (x # ws) its q = setitems ws (its(p \<mapsto> v)) q"
    by (simp add: x)
  consider (kept) "setitems ws (its(p \<mapsto> v)) q = (its(p \<mapsto> v)) q"
    | (later) w where "(q, w) \<in> set ws" "setitems ws (its(p \<mapsto> v)) q = Some w"
    using Cons [of "its(p \<mapsto> v)"] by blast
  then show ?case
  proof cases
    case kept
    show ?thesis
    proof (cases "q = p")
      case True
      with kept step have "setitems (x # ws) its q = Some v"
        by simp
      moreover have "(q, v) \<in> set (x # ws)"
        using True x by simp
      ultimately show ?thesis
        by blast
    next
      case False
      with kept step have "setitems (x # ws) its q = its q"
        by simp
      then show ?thesis
        by blast
    qed
  next
    case later
    then have "(q, w) \<in> set (x # ws)"
      by simp
    with later step show ?thesis
      by metis
  qed
qed

lemma setitems_idem: "setitems ws (setitems ws its) = setitems ws its"
proof -
  have eq: "setitems xs m = m ++ map_of (rev xs)" for xs and m :: "string \<rightharpoonup> dval"
    by (induction xs arbitrary: m) (auto simp: map_add_upd_left)
  have "(m ++ n) ++ n = m ++ n" for m n :: "string \<rightharpoonup> dval"
    by (rule ext) (simp add: map_add_def split: option.splits)
  then show ?thesis
    by (simp add: eq)
qed

lemma written_cases:
  "setitems (take k (assignments ct cl1)) its q = its q
   \<or> (q = ''/Ac/Power'' \<and> setitems (take k (assignments ct cl1)) its q = Some (DNum ct))
   \<or> (q = ''/Ac/L1/Power'' \<and> setitems (take k (assignments ct cl1)) its q = Some (DNum cl1))
   \<or> (q = ''/Ac/L2/Power'' \<and> setitems (take k (assignments ct cl1)) its q = Some (DNum 0))
   \<or> (q = ''/Ac/L3/Power'' \<and> setitems (take k (assignments ct cl1)) its q = Some (DNum 0))"
proof -
  have "(q, w) \<in> set (take k (assignments ct cl1)) \<Longrightarrow>
          (q, w) \<in> {(''/Ac/Power'', DNum ct), (''/Ac/L1/Power'', DNum cl1),
                    (''/Ac/L2/Power'', DNum 0), (''/Ac/L3/Power'', DNum 0)}" for w
    by (drule in_set_takeD) (simp add: assignments_def)
  with setitems_cases [of "take k (assignments ct cl1)" its q] show ?thesis
    by blast
qed

lemma update_frame:
  "path \<notin> set output_paths \<Longrightarrow> items (fst (update b s)) path = items s path"
proof -
  assume out: "path \<notin> set output_paths"
  obtain k ct cl1 where
    "items (fst (update b s)) = setitems (take k (assignments ct cl1)) (items s)"
    using items_update_shape by blast
  with written_cases [of k ct cl1 "items s" path] out show ?thesis
    by (auto simp: output_paths_def)
qed

lemma scheduler_frame:
  "path \<notin> set output_paths \<Longrightarrow> items (scheduler bs s) path = items s path"
  by (induction bs arbitrary: s) (simp_all add: scheduler_Cons update_frame del: scheduler.simps(2))

lemma update_nonneg_at:
  "nonneg_at (items s) path \<Longrightarrow> nonneg_at (items (fst (update b s))) path"
proof -
  assume a: "nonneg_at (items s) path"
  obtain k ct cl1 where nn: "0 \<le> ct" "0 \<le> cl1"
    and "items (fst (update b s)) = setitems (take k (assignments ct cl1)) (items s)"
    using items_update_shape by blast
  with written_cases [of k ct cl1 "items s" path] a show ?thesis
    by (auto simp: nonneg_at_def)
qed

lemma scheduler_nonneg_at:
  "nonneg_at (items s) path \<Longrightarrow> nonneg_at (items (scheduler bs s)) path"
  by (induction bs arbitrary: s) (simp_all add: scheduler_Cons update_nonneg_at del: scheduler.simps(2))

lemma update_zero_at:
  "path = ''/Ac/L2/Power'' \<or> path = ''/Ac/L3/Power'' \<Longrightarrow> items s path = Some (DNum 0) \<Longrightarrow>
     items (fst (update b s)) path = Some (DNum 0)"
proof -
  assume p: "path = ''/Ac/L2/Power'' \<or> path = ''/Ac/L3/Power''" and z: "items s path = Some (DNum 0)"
  obtain k ct cl1 where
    "items (fst (update b s)) = setitems (take k (assignments ct cl1)) (items s)"
    using items_update_shape by blast
  with written_cases [of k ct cl1 "items s" path] p z show ?thesis
    by auto
qed

lemma scheduler_zero_at:
  "path = ''/Ac/L2/Power'' \<or> path = ''/Ac/L3/Power'' \<Longrightarrow> items s path = Some (DNum 0) \<Longrightarrow>
     items (scheduler bs s) path = Some (DNum 0)"
  by (induction bs arbitrary: s) (simp_all add: scheduler_Cons update_zero_at del: scheduler.simps(2))

lemma no_fault_items:
  "\<not> isl (snd (try_body b (items s))) \<Longrightarrow>
     \<exists>ct cl1. 0 \<le> ct \<and> 0 \<le> cl1 \<and> items (fst (update b s)) = setitems (assignments ct cl1) (items s)"
proof -
  assume ok: "\<not> isl (snd (try_body b (items s)))"
  then obtain gp pp ct cl1 where r: "read_and_compute b = Inr (gp, pp, ct, cl1)"
    by (cases "read_and_compute b") (auto simp: try_body_def)
  with ok have "setitem_fault b = None"
    by (cases "setitem_fault b") (auto simp: update_write_fault)
  with r have "items (fst (update b s)) = setitems (assignments ct cl1) (items s)"
    by (simp add: items_update update_no_fault)
  with read_and_compute_nonneg [OF r] show ?thesis
    by blast
qed

lemma setitem_fault_readings: "setitem_fault (readings g gl p pl) = None"
  by (simp add: readings_def)

lemma try_body_readings: "\<not> isl (snd (try_body (readings g gl p pl) its))"
  by (simp add: update_no_fault [OF read_and_compute_readings setitem_fault_readings])

subsection \<open>Invariants of the published outputs\<close>

text \<open>
  C6: each of the four published fields \<open>/Ac/Power\<close>, \<open>/Ac/L1/Power\<close>,
  \<open>/Ac/L2/Power\<close>, \<open>/Ac/L3/Power\<close> is a number \<open>\<ge> 0\<close> at registration, after
  every tick that ends without a fault (from any state, for any readings), and after any
  sequence of ticks, faulting or not, run from registration.
\<close>

theorem outputs_never_negative:
  "outputs_nonneg (items (init file python_version))
   \<and> (\<not> isl (snd (try_body b (items s))) \<longrightarrow> outputs_nonneg (items (fst (update b s))))
   \<and> outputs_nonneg (items (fst (update (readings g gl p pl) s)))
   \<and> outputs_nonneg (items (scheduler bs (init file python_version)))"
proof -
  have reg: "outputs_nonneg (items (init file python_version))"
    by (simp add: outputs_nonneg_def nonneg_at_def init_def add_path_def)
  have written: "outputs_nonneg (setitems (assignments ct cl1) its)"
    if "0 \<le> ct" "0 \<le> cl1" for ct cl1 its
    using that by (simp add: outputs_nonneg_def nonneg_at_def assignments_def)
  have ok: "outputs_nonneg (items (fst (update b s)))" if "\<not> isl (snd (try_body b (items s)))"
    using no_fault_items [OF that] written by auto
  have rd: "outputs_nonneg (items (fst (update (readings g gl p pl) s)))"
    by (simp add: items_update_readings written)
  have run: "outputs_nonneg (items (scheduler bs (init file python_version)))"
    using reg by (simp add: outputs_nonneg_def scheduler_nonneg_at)
  from reg ok rd run show ?thesis
    by blast
qed

theorem outputs_never_negative_witness:
  "\<not> isl (snd (try_body (readings (Some 500) (Some 500) (Some 100) None) (items (init ''calc.py'' ''3.8''))))
   \<and> outputs_nonneg (items (fst (update (readings (Some 500) (Some 500) (Some 100) None) (init ''calc.py'' ''3.8''))))
   \<and> items (fst (update (readings (Some 500) (Some 500) (Some 100) None) (init ''calc.py'' ''3.8'')))
        ''/Ac/Power'' = Some (DNum 0)"
proof -
  have ok: "\<not> isl (snd (try_body (readings (Some 500) (Some 500) (Some 100) None)
                (items (init ''calc.py'' ''3.8''))))"
    by (rule try_body_readings)
  have "items (fst (update (readings (Some 500) (Some 500) (Some 100) None) (init ''calc.py'' ''3.8'')))
          ''/Ac/Power'' = Some (DNum 0)"
    by (simp add: items_update_readings assignments_def or0_def)
  with ok outputs_never_negative [of "''calc.py''" "''3.8''"
      "readings (Some 500) (Some 500) (Some 100) None" "init ''calc.py'' ''3.8''"]
  show ?thesis
    by blast
qed

text \<open>
  C7: \<open>/Ac/L2/Power\<close> and \<open>/Ac/L3/Power\<close> are exactly 0 after a tick with any four
  readings, from any state, and after any sequence of ticks, faulting or not, run from
  registration.
\<close>

theorem unused_phases_zero:
  "items (fst (update (readings g gl p pl) s)) ''/Ac/L2/Power'' = Some (DNum 0)
   \<and> items (fst (update (readings g gl p pl) s)) ''/Ac/L3/Power'' = Some (DNum 0)
   \<and> items (scheduler bs (init file python_version)) ''/Ac/L2/Power'' = Some (DNum 0)
   \<and> items (scheduler bs (init file python_version)) ''/Ac/L3/Power'' = Some (DNum 0)"
proof -
  have "items (init file python_version) ''/Ac/L2/Power'' = Some (DNum 0)"
    and "items (init file python_version) ''/Ac/L3/Power'' = Some (DNum 0)"
    by (simp_all add: init_def add_path_def)
  then have "items (scheduler bs (init file python_version)) ''/Ac/L2/Power'' = Some (DNum 0)"
    and "items (scheduler bs (init file python_version)) ''/Ac/L3/Power'' = Some (DNum 0)"
    by (simp_all add: scheduler_zero_at)
  then show ?thesis
    by (simp add: items_update_readings assignments_def)
qed

subsection \<open>Determinism and frame\<close>

text \<open>
  C8: a second call of \<open>_update\<close> with the bus unchanged leaves the published items as
  the first call left them, and the four outputs of a tick on which nothing raises are the
  same from any two states: they depend on the four readings only.
\<close>

theorem update_idempotent:
  "items (fst (update b (fst (update b s)))) = items (fst (update b s))
   \<and> items (scheduler [b, b] s) = items (scheduler [b] s)
   \<and> items (fst (update (readings g gl p pl) s)) ''/Ac/Power''
       = items (fst (update (readings g gl p pl) s')) ''/Ac/Power''
   \<and> items (fst (update (readings g gl p pl) s)) ''/Ac/L1/Power''
       = items (fst (update (readings g gl p pl) s')) ''/Ac/L1/Power''
   \<and> items (fst (update (readings g gl p pl) s)) ''/Ac/L2/Power''
       = items (fst (update (readings g gl p pl) s')) ''/Ac/L2/Power''
   \<and> items (fst (update (readings g gl p pl) s)) ''/Ac/L3/Power''
       = items (fst (update (readings g gl p pl) s')) ''/Ac/L3/Power''"
proof -
  have twice: "items (fst (update b (fst (update b s)))) = items (fst (update b s))"
  proof (cases "read_and_compute b")
    case (Inl e)
    then show ?thesis
      by (simp add: update_read_fault)
  next
    case (Inr r)
    obtain gp pp ct cl1 where r: "read_and_compute b = Inr (gp, pp, ct, cl1)"
      using Inr by (cases r) auto
    show ?thesis
    proof (cases "setitem_fault b")
      case None
      with r show ?thesis
        by (simp add: items_update update_no_fault setitems_idem)
    next
      case (Some k)
      with r show ?thesis
        by (simp add: items_update update_write_fault)
    qed
  qed
  then have "items (scheduler [b, b] s) = items (scheduler [b] s)"
    by (simp add: scheduler_Cons del: scheduler.simps(2))
  with twice show ?thesis
    by (simp add: items_update_readings assignments_def)
qed

text \<open>
  C9: a tick changes no path other than \<open>/Ac/Power\<close>, \<open>/Ac/L1/Power\<close>,
  \<open>/Ac/L2/Power\<close> and \<open>/Ac/L3/Power\<close>, whether it faults or not; so after any sequence
  of ticks the process name and version, the device instance 100, the product name, the
  role and the serial hold the values given at registration.
\<close>

theorem update_writes_outputs_only:
  "(path \<notin> set output_paths \<longrightarrow>
      items (fst (update b s)) path = items s path \<and> items (scheduler bs s) path = items s path)
   \<and> items (scheduler bs (init file python_version)) ''/Mgmt/ProcessName'' = Some (DStr file)
   \<and> items (scheduler bs (init file python_version)) ''/Mgmt/ProcessVersion''
       = Some (DStr (''v1.0 on Python '' @ python_version))
   \<and> items (scheduler bs (init file python_version)) ''/DeviceInstance'' = Some (DNum 100)
   \<and> items (scheduler bs (init file python_version)) ''/ProductName''
       = Some (DStr ''Consumption Calculator'')
   \<and> items (scheduler bs (init file python_version)) ''/Role'' = Some (DStr ''acload'')
   \<and> items (scheduler bs (init file python_version)) ''/Serial'' = Some (DStr ''CALC001'')"
proof -
  have static: "items (scheduler bs (init file python_version)) path'
      = items (init file python_version) path'" if "path' \<notin> set output_paths" for path'
    using that by (rule scheduler_frame)
  have "items (scheduler bs (init file python_version)) ''/Mgmt/ProcessName'' = Some (DStr file)"
    by (subst static) (simp_all add: output_paths_def init_def add_path_def)
  moreover have "items (scheduler bs (init file python_version)) ''/Mgmt/ProcessVersion''
       = Some (DStr (''v1.0 on Python '' @ python_version))"
    by (subst static) (simp_all add: output_paths_def init_def add_path_def)
  moreover have "items (scheduler bs (init file python_version)) ''/DeviceInstance'' = Some (DNum 100)"
    by (subst static) (simp_all add: output_paths_def init_def add_path_def)
  moreover have "items (scheduler bs (init file python_version)) ''/ProductName''
       = Some (DStr ''Consumption Calculator'')"
    by (subst static) (simp_all add: output_paths_def init_def add_path_def)
  moreover have "items (scheduler bs (init file python_version)) ''/Role'' = Some (DStr ''acload'')"
    by (subst static) (simp_all add: output_paths_def init_def add_path_def)
  moreover have "items (scheduler bs (init file python_version)) ''/Serial'' = Some (DStr ''CALC001'')"
    by (subst static) (simp_all add: output_paths_def init_def add_path_def)
  ultimately show ?thesis
    using update_frame [of path b s] scheduler_frame [of path bs s] by blast
qed

theorem update_writes_outputs_only_witness:
  "''/Connected'' \<notin> set output_paths
   \<and> items (fst (update (readings (Some (- 2300)) None (Some 400) None) (init ''calc.py'' ''3.8'')))
       ''/Connected'' = Some (DNum 1)
   \<and> items (scheduler [readings (Some (- 2300)) None (Some 400) None] (init ''calc.py'' ''3.8''))
       ''/DeviceInstance'' = Some (DNum 100)"
proof -
  have out: "''/Connected'' \<notin> set output_paths"
    by (simp add: output_paths_def)
  have "items (init ''calc.py'' ''3.8'') ''/Connected'' = Some (DNum 1)"
    by (simp add: init_def add_path_def)
  with out update_writes_outputs_only [of "''/Connected''"
      "readings (Some (- 2300)) None (Some 400) None" "init ''calc.py'' ''3.8''"
      "[readings (Some (- 2300)) None (Some 400) None]" "''calc.py''" "''3.8''"]
  show ?thesis
    by simp
qed

subsection \<open>Faults of a tick\<close>







subsection \<open>Startup\<close>

declare wait_loop.simps [simp del]

lemma attempts_Suc:
  "attempts service_name (Suc k) = GetObject service_name # Sleep 2 # attempts service_name k"
  by (simp add: attempts_def)

lemma attempts_calls:
  "length (filter (\<lambda>e. e = GetObject service_name) (attempts service_name k)) = Suc k"
  by (induction k) (simp_all add: attempts_Suc, simp add: attempts_def)

lemma attempts_sleeps:
  "filter (\<lambda>e. e \<noteq> GetObject service_name) (attempts service_name k) = replicate k (Sleep 2)"
  by (induction k) (simp_all add: attempts_Suc, simp add: attempts_def)

lemma attempts_other:
  "sv \<noteq> service_name \<Longrightarrow> GetObject sv \<notin> set (attempts service_name k)"
  by (induction k) (simp_all add: attempts_Suc, simp add: attempts_def)

lemma wait_loop_exhausted:
  "retry_count < retries \<Longrightarrow>
   (\<forall>i. retry_count \<le> i \<and> i < retries \<longrightarrow> \<not> get_object service_name i) \<Longrightarrow>
   wait_loop get_object retries service_name retry_count
     = (attempts service_name (retries - Suc retry_count), Some 1)"
proof (induction get_object retries service_name retry_count rule: wait_loop.induct)
  case (1 get_object retries service_name retry_count)
  from "1.prems" have nf: "\<not> get_object service_name retry_count"
    by simp
  show ?case
  proof (cases "retries \<le> Suc retry_count")
    case True
    with "1.prems"(1) nf show ?thesis
      by (subst wait_loop.simps) (simp add: attempts_def)
  next
    case False
    then have more: "Suc retry_count < retries"
      by simp
    have "wait_loop get_object retries service_name (Suc retry_count)
        = (attempts service_name (retries - Suc (Suc retry_count)), Some 1)"
      using "1.IH" [OF "1.prems"(1) nf False more] "1.prems"(2) by simp
    moreover have "retries - Suc retry_count = Suc (retries - Suc (Suc retry_count))"
      using more by simp
    ultimately show ?thesis
      using "1.prems"(1) nf False by (subst wait_loop.simps) (simp add: attempts_Suc)
  qed
qed

lemma wait_loop_found:
  "retry_count \<le> k \<Longrightarrow> k < retries \<Longrightarrow>
   (\<forall>i. retry_count \<le> i \<and> i < k \<longrightarrow> \<not> get_object service_name i) \<Longrightarrow>
   get_object service_name k \<Longrightarrow>
   wait_loop get_object retries service_name retry_count
     = (attempts service_name (k - retry_count), None)"
proof (induction get_object retries service_name retry_count rule: wait_loop.induct)
  case (1 get_object retries service_name retry_count)
  show ?case
  proof (cases "retry_count = k")
    case True
    with "1.prems" show ?thesis
      by (subst wait_loop.simps) (simp add: attempts_def)
  next
    case False
    with "1.prems" have less: "retry_count < k" and nf: "\<not> get_object service_name retry_count"
      by simp_all
    from less "1.prems"(2) have here: "retry_count < retries" and more: "\<not> retries \<le> Suc retry_count"
      by simp_all
    have "wait_loop get_object retries service_name (Suc retry_count)
        = (attempts service_name (k - Suc retry_count), None)"
      using "1.IH" [OF here nf more] less "1.prems" by simp
    moreover have "k - retry_count = Suc (k - Suc retry_count)"
      using less by simp
    ultimately show ?thesis
      using here nf more by (subst wait_loop.simps) (simp add: attempts_Suc)
  qed
qed

lemma wait_loop_calls:
  "length (filter (\<lambda>e. e = GetObject sv) (fst (wait_loop get_object retries service_name retry_count)))
     \<le> (if sv = service_name then retries - retry_count else 0)"
proof (induction get_object retries service_name retry_count rule: wait_loop.induct)
  case (1 get_object retries service_name retry_count)
  show ?case
  proof (cases "retry_count < retries \<and> \<not> get_object service_name retry_count
      \<and> \<not> retries \<le> Suc retry_count")
    case True
    then have IH: "length (filter (\<lambda>e. e = GetObject sv)
        (fst (wait_loop get_object retries service_name (Suc retry_count))))
          \<le> (if sv = service_name then retries - Suc retry_count else 0)"
      using "1.IH" by simp
    from True have "fst (wait_loop get_object retries service_name retry_count)
        = GetObject service_name # Sleep 2
            # fst (wait_loop get_object retries service_name (Suc retry_count))"
      by (subst wait_loop.simps) (simp split: prod.splits)
    with IH True show ?thesis
      by (auto split: if_splits)
  next
    case False
    then show ?thesis
      by (subst wait_loop.simps) auto
  qed
qed

text \<open>
  C4: the grid service is waited for first, then the PV service. A service never found
  is asked for 30 times (\<open>max_retries\<close>), with a sleep of 2 seconds after each of the first
  29 failures, and then the process exits with status 1; when that service is the grid
  service, the PV service is never asked for. A service found at its \<open>k\<close>-th retry
  (\<open>k < 30\<close>) costs \<open>k\<close> failed calls, each followed by a sleep of 2 seconds, and one
  successful call. No service is asked for more than 30 times, and the only exit status
  is 1.
\<close>

theorem startup_discovery:
  "max_retries = 30
   \<and> ((\<forall>i<30. \<not> get_object grid_service i) \<longrightarrow>
        main get_object file python_version = (attempts grid_service 29, Inl 1)
        \<and> GetObject pv_service \<notin> set (fst (main get_object file python_version)))
   \<and> (k < 30 \<and> (\<forall>i<k. \<not> get_object grid_service i) \<and> get_object grid_service k
        \<and> (\<forall>i<30. \<not> get_object pv_service i) \<longrightarrow>
        main get_object file python_version
          = (attempts grid_service k @ attempts pv_service 29, Inl 1))
   \<and> (k < 30 \<and> (\<forall>i<k. \<not> get_object grid_service i) \<and> get_object grid_service k
        \<and> m < 30 \<and> (\<forall>i<m. \<not> get_object pv_service i) \<and> get_object pv_service m \<longrightarrow>
        main get_object file python_version
          = (attempts grid_service k @ attempts pv_service m, Inr (init file python_version)))
   \<and> length (filter (\<lambda>e. e = GetObject sv) (attempts sv n)) = Suc n
   \<and> filter (\<lambda>e. e \<noteq> GetObject sv) (attempts sv n) = replicate n (Sleep 2)
   \<and> length (filter (\<lambda>e. e = GetObject sv) (fst (main get_object file python_version))) \<le> 30
   \<and> (snd (main get_object file python_version) = Inl status \<longrightarrow> status = 1 \<and> status \<noteq> 0)"
proof -
  let ?g = get_object
  have distinct: "grid_service \<noteq> pv_service"
    by (simp add: grid_service_def pv_service_def)
  have grid_never: "wait_loop ?g 30 grid_service 0 = (attempts grid_service 29, Some 1)"
    if "\<forall>i<30. \<not> ?g grid_service i"
    using wait_loop_exhausted [of 0 30 ?g grid_service] that by simp
  have pv_never: "wait_loop ?g 30 pv_service 0 = (attempts pv_service 29, Some 1)"
    if "\<forall>i<30. \<not> ?g pv_service i"
    using wait_loop_exhausted [of 0 30 ?g pv_service] that by simp
  have grid_found: "wait_loop ?g 30 grid_service 0 = (attempts grid_service k, None)"
    if "k < 30" "\<forall>i<k. \<not> ?g grid_service i" "?g grid_service k"
    using wait_loop_found [of 0 k 30 ?g grid_service] that by simp
  have pv_found: "wait_loop ?g 30 pv_service 0 = (attempts pv_service m, None)"
    if "m < 30" "\<forall>i<m. \<not> ?g pv_service i" "?g pv_service m"
    using wait_loop_found [of 0 m 30 ?g pv_service] that by simp
  have c1: "main ?g file python_version = (attempts grid_service 29, Inl 1)
      \<and> GetObject pv_service \<notin> set (fst (main ?g file python_version))"
    if "\<forall>i<30. \<not> ?g grid_service i"
    using grid_never [OF that] attempts_other [of pv_service grid_service 29] distinct
    by (simp add: main_def max_retries_def)
  have c2: "main ?g file python_version
      = (attempts grid_service k @ attempts pv_service 29, Inl 1)"
    if "k < 30" "\<forall>i<k. \<not> ?g grid_service i" "?g grid_service k" "\<forall>i<30. \<not> ?g pv_service i"
    using grid_found that pv_never by (simp add: main_def max_retries_def)
  have c3: "main ?g file python_version
      = (attempts grid_service k @ attempts pv_service m, Inr (init file python_version))"
    if "k < 30" "\<forall>i<k. \<not> ?g grid_service i" "?g grid_service k"
      "m < 30" "\<forall>i<m. \<not> ?g pv_service i" "?g pv_service m"
    using grid_found pv_found that by (simp add: main_def max_retries_def)
  have fst_main: "fst (main ?g file python_version)
      = fst (wait_for_services ?g 30 [grid_service, pv_service])"
    by (simp add: main_def max_retries_def split: prod.splits option.splits)
  have calls_grid: "length (filter (\<lambda>e. e = GetObject sv) (fst (wait_loop ?g 30 grid_service 0)))
      \<le> (if sv = grid_service then 30 else 0)"
    using wait_loop_calls [of sv ?g 30 grid_service 0] by (auto split: if_splits)
  have calls_pv: "length (filter (\<lambda>e. e = GetObject sv) (fst (wait_loop ?g 30 pv_service 0)))
      \<le> (if sv = pv_service then 30 else 0)"
    using wait_loop_calls [of sv ?g 30 pv_service 0] by (auto split: if_splits)
  have c4: "length (filter (\<lambda>e. e = GetObject sv) (fst (main ?g file python_version))) \<le> 30"
    unfolding fst_main using calls_grid calls_pv distinct
    by (auto split: prod.splits option.splits if_splits)
  have status_loop: "r = None \<or> r = Some 1"
    if "wait_loop ?g 30 sv' 0 = (evs, r)" for sv' evs r
  proof (cases "\<forall>i<30. \<not> ?g sv' i")
    case True
    then show ?thesis
      using wait_loop_exhausted [of 0 30 ?g sv'] that by simp
  next
    case False
    then obtain j where j: "j < 30" "?g sv' j" "\<forall>i<j. \<not> ?g sv' i"
      using exists_least_iff [of "\<lambda>i. i < 30 \<and> ?g sv' i"] by (metis order.strict_trans)
    then show ?thesis
      using wait_loop_found [of 0 j 30 ?g sv'] that by simp
  qed
  have c5: "status = 1 \<and> status \<noteq> 0" if "snd (main ?g file python_version) = Inl status"
    using that status_loop [of grid_service] status_loop [of pv_service]
    by (auto simp: main_def max_retries_def split: prod.splits option.splits)
  have c0: "max_retries = 30"
    by (simp add: max_retries_def)
  from c0 c1 c2 c3 c4 c5 attempts_calls [of sv n] attempts_sleeps [of sv n] show ?thesis
    by blast
qed

text \<open>
  Three runs: no service ever appears; the grid service appears at its second retry and the
  PV service never; both appear at their second retry.
\<close>

theorem startup_discovery_witness:
  "main (\<lambda>sv n. False) ''calc.py'' ''3.8'' = (attempts grid_service 29, Inl 1)
   \<and> length (attempts grid_service 29) = 59
   \<and> main (\<lambda>sv n. sv = grid_service \<and> n = 2) ''calc.py'' ''3.8''
       = (attempts grid_service 2 @ attempts pv_service 29, Inl 1)
   \<and> main (\<lambda>sv n. n = 2) ''calc.py'' ''3.8''
       = ([GetObject grid_service, Sleep 2, GetObject grid_service, Sleep 2, GetObject grid_service,
           GetObject pv_service, Sleep 2, GetObject pv_service, Sleep 2, GetObject pv_service],
          Inr (init ''calc.py'' ''3.8''))"
proof -
  have distinct: "pv_service \<noteq> grid_service"
    by (simp add: grid_service_def pv_service_def)
  have never: "main (\<lambda>sv n. False) ''calc.py'' ''3.8'' = (attempts grid_service 29, Inl 1)"
  proof -
    have h: "\<forall>i<30. \<not> (\<lambda>(sv::string) (n::nat). False) grid_service i"
      by simp
    from startup_discovery [of "\<lambda>sv n. False" "''calc.py''" "''3.8''" 0 0 grid_service 0 0] h
    show ?thesis
      by blast
  qed
  have grid_only: "main (\<lambda>sv n. sv = grid_service \<and> n = 2) ''calc.py'' ''3.8''
       = (attempts grid_service 2 @ attempts pv_service 29, Inl 1)"
  proof -
    have h: "(2::nat) < 30
        \<and> (\<forall>i<2. \<not> (\<lambda>(sv::string) (n::nat). sv = grid_service \<and> n = 2) grid_service i)
        \<and> (\<lambda>(sv::string) (n::nat). sv = grid_service \<and> n = 2) grid_service 2
        \<and> (\<forall>i<30. \<not> (\<lambda>(sv::string) (n::nat). sv = grid_service \<and> n = 2) pv_service i)"
      using distinct by simp
    from startup_discovery [of "\<lambda>sv n. sv = grid_service \<and> n = 2" "''calc.py''" "''3.8''" 2 0
        grid_service 0 0] h
    show ?thesis
      by blast
  qed
  have both: "main (\<lambda>sv n. n = 2) ''calc.py'' ''3.8''
       = (attempts grid_service 2 @ attempts pv_service 2, Inr (init ''calc.py'' ''3.8''))"
  proof -
    have h: "(2::nat) < 30 \<and> (\<forall>i<2. \<not> (\<lambda>(sv::string) (n::nat). n = 2) grid_service i)
        \<and> (\<lambda>(sv::string) (n::nat). n = 2) grid_service 2
        \<and> (\<forall>i<2. \<not> (\<lambda>(sv::string) (n::nat). n = 2) pv_service i)
        \<and> (\<lambda>(sv::string) (n::nat). n = 2) pv_service 2"
      by simp
    from startup_discovery [of "\<lambda>sv n. n = 2" "''calc.py''" "''3.8''" 2 2 grid_service 0 0] h
    show ?thesis
      by blast
  qed
  have len: "length (attempts grid_service 29) = 59"
    by (simp add: attempts_def length_concat sum_list_replicate)
  have two: "attempts sv 2 = [GetObject sv, Sleep 2, GetObject sv, Sleep 2, GetObject sv]" for sv
    by (simp add: attempts_def numeral_2_eq_2)
  from never grid_only both len show ?thesis
    unfolding two by simp
qed

end
